theory Spec2Isabelle
  imports Complex_Main "HOL-Library.Multiset"
begin

section \<open>Shared data model\<close>

text \<open>
  The mission modes of \<^verbatim>\<open>src/autonomous_modes\<close> are embedded as functions over records.
  Python floats are read as real numbers (no rounding, no NaN or infinity): the claims
  verified here depend on comparisons and on the shape of lists, not on rounding.
  A mode's \<^verbatim>\<open>self\<close> is a record passed in and returned; the \<^verbatim>\<open>uav\<close> object, through whose
  attributes the modes communicate, is a record too. A vehicle call is modelled by the
  list of commands a method issues; a primitive the vehicle does not offer (the call
  raises, and the source swallows the exception) is one for which \<open>available\<close> is False.
\<close>

type_synonym point = "real \<times> real \<times> real"

datatype status = CONTINUE | COMPLETE

datatype primitive =
    publish_offboard_control_heartbeat_signal
  | arm
  | takeoff
  | publish_position_setpoint
  | publish_position_setpoint_yaw
  | publish_velocity_setpoint
  | set_velocity
  | set_yaw_rate

datatype command =
    OffboardHeartbeat
  | Arm
  | Takeoff real
  | PositionSetpoint point "real option"
  | VelocitySetpoint real real real real
  | SetVelocity real real real
  | SetYawRate real

text \<open>
  A detection or hoop record is a Python dict. The keys the modes read are fields; a key
  that is absent is \<open>None\<close>. The value under \<^verbatim>\<open>'position'\<close> is a sequence of numbers of
  any length.
\<close>

record pydict =
  key_position :: "real list option"
  key_bearing :: "real option"
  key_ex :: "real option"
  key_ey :: "real option"
  key_radius :: "real option"
  key_r :: "real option"

text \<open>An element of \<^verbatim>\<open>uav.hoops_discovered\<close>: a dict, a list or tuple of numbers, or anything else.\<close>

datatype raw_hoop = HDict pydict | HSeq "real list" | HOther

record center =
  hoop :: pydict
  pos :: point

record route_entry =
  entry_hoop :: pydict
  pre_approach :: point
  hoop_pos :: point

text \<open>
  The attributes of \<^verbatim>\<open>uav\<close> the modes read with \<^verbatim>\<open>getattr\<close>. An absent or \<^verbatim>\<open>None\<close>
  \<^verbatim>\<open>local_position\<close> is \<open>None\<close>; \<open>home_pose\<close> is \<open>None\<close> as long as no mode has stored one
  (the attribute is absent, the case the \<^verbatim>\<open>getattr\<close> defaults of the source are for); an
  absent list attribute is the empty list, which is what those defaults give.
\<close>

record uav =
  local_position :: "point option"
  home_pose :: "point option"
  hoops_discovered :: "raw_hoop list"
  planned_route :: "route_entry list"
  hoops_traversed :: "route_entry list"
  available :: "primitive \<Rightarrow> bool"

definition math_dist :: "point \<Rightarrow> point \<Rightarrow> real" where
  "math_dist p q =
     (case p of (px, py, pz) \<Rightarrow> case q of (qx, qy, qz) \<Rightarrow>
        sqrt ((px - qx)\<^sup>2 + (py - qy)\<^sup>2 + (pz - qz)\<^sup>2))"

definition math_hypot :: "real \<Rightarrow> real \<Rightarrow> real" where
  "math_hypot x y = sqrt (x\<^sup>2 + y\<^sup>2)"

definition math_radians :: "real \<Rightarrow> real" where
  "math_radians d = d * pi / 180"

text \<open>\<^verbatim>\<open>d.get(k, default)\<close> on an optional field.\<close>

definition dict_get :: "'a option \<Rightarrow> 'a \<Rightarrow> 'a" where
  "dict_get v dflt = (case v of None \<Rightarrow> dflt | Some x \<Rightarrow> x)"


section \<open>PlanRoute\<close>

record plan_route =
  pre_approach_dist :: real
  max_targets :: int
  route :: "route_entry list"
  points :: "real list list option"

text \<open>Lines 29-34: a point with fewer than three coordinates raises and is skipped.\<close>

fun point_to_hoop :: "real list \<Rightarrow> raw_hoop option" where
  "point_to_hoop (x # y # z # _) =
     Some (HDict \<lparr>key_position = Some [x, y, z], key_bearing = None, key_ex = None,
                  key_ey = None, key_radius = None, key_r = None\<rparr>)"
| "point_to_hoop _ = None"

text \<open>Lines 27-36: an explicit, non-empty point list takes priority over the discovered hoops.\<close>

definition plan_hoops :: "plan_route \<Rightarrow> uav \<Rightarrow> raw_hoop list" where
  "plan_hoops self u =
     (case points self of
        Some (p # ps) \<Rightarrow> List.map_filter point_to_hoop (p # ps)
      | _ \<Rightarrow> hoops_discovered u)"

text \<open>Lines 47-58: one centre per well-formed hoop; the others are skipped.\<close>

fun center_of :: "raw_hoop \<Rightarrow> center option" where
  "center_of (HDict h) =
     (case key_position h of
        Some (x # y # z # _) \<Rightarrow> Some \<lparr>hoop = h, pos = (x, y, z)\<rparr>
      | _ \<Rightarrow> None)"
| "center_of (HSeq (x # y # z # _)) =
     Some \<lparr>hoop = \<lparr>key_position = Some [x, y, z], key_bearing = None, key_ex = None,
                   key_ey = None, key_radius = None, key_r = None\<rparr>,
           pos = (x, y, z)\<rparr>"
| "center_of _ = None"

definition plan_centers :: "raw_hoop list \<Rightarrow> center list" where
  "plan_centers hoops = List.map_filter center_of hoops"

text \<open>Lines 60-67.\<close>

definition plan_cur_pos :: "uav \<Rightarrow> point" where
  "plan_cur_pos u = (case local_position u of Some p \<Rightarrow> p | None \<Rightarrow> (0, 0, 0))"

text \<open>
  Lines 69-75, the selection loop. \<^verbatim>\<open>list.sort\<close> is stable and sorts \<^verbatim>\<open>remaining\<close> in
  place, as \<open>sort_key\<close> does on the list it is given; \<^verbatim>\<open>pop(0)\<close> takes the head.
\<close>

function plan_loop :: "int \<Rightarrow> point \<Rightarrow> center list \<Rightarrow> center list \<Rightarrow> center list" where
  "plan_loop maxt cur_pos remaining order =
     (if remaining \<noteq> [] \<and> int (length order) < maxt then
        (case sort_key (\<lambda>c. math_dist cur_pos (pos c)) remaining of
           [] \<Rightarrow> order
         | chosen # rest \<Rightarrow> plan_loop maxt (pos chosen) rest (order @ [chosen]))
      else order)"
  by pat_completeness auto
termination
proof (relation "measure (\<lambda>(maxt, cur_pos, remaining, order). length remaining)")
  show "wf (measure (\<lambda>(maxt, cur_pos, remaining, order). length remaining))"
    by simp
next
  fix maxt :: int and cur_pos :: point and remaining order :: "center list"
    and chosen :: center and rest :: "center list"
  assume "sort_key (\<lambda>c. math_dist cur_pos (pos c)) remaining = chosen # rest"
  then have "length (chosen # rest) = length remaining"
    by (metis length_sort)
  then show "((maxt, pos chosen, rest, order @ [chosen]), (maxt, cur_pos, remaining, order))
      \<in> measure (\<lambda>(maxt, cur_pos, remaining, order). length remaining)"
    by simp
qed

declare plan_loop.simps [simp del]

text \<open>Line 88, \<^verbatim>\<open>d = math.hypot(vx, vy) or 1.0\<close>: the divisor of the two divisions of line 89.\<close>

definition normal_divisor :: "real \<Rightarrow> real \<Rightarrow> real" where
  "normal_divisor vx vy = (if math_hypot vx vy = 0 then 1 else math_hypot vx vy)"

text \<open>Lines 80-89: the approach normal of a selected hoop.\<close>

definition approach_normal :: "point option \<Rightarrow> pydict \<Rightarrow> point \<Rightarrow> point" where
  "approach_normal home h p =
     (case p of (hx, hy, hz) \<Rightarrow>
        (case key_bearing h of
           Some b \<Rightarrow> (cos b, sin b, 0)
         | None \<Rightarrow>
             (case dict_get home (0, 0, 0) of (sx, sy, sz) \<Rightarrow>
                let vx = hx - sx; vy = hy - sy;
                    d = normal_divisor vx vy
                in (vx / d, vy / d, 0))))"

text \<open>Lines 78-95: one route entry per selected centre.\<close>

definition plan_entry :: "point option \<Rightarrow> real \<Rightarrow> center \<Rightarrow> route_entry" where
  "plan_entry home standoff item =
     (case pos item of (hx, hy, hz) \<Rightarrow>
        (case approach_normal home (hoop item) (pos item) of (nx, ny, nz) \<Rightarrow>
           \<lparr>entry_hoop = hoop item,
            pre_approach = (hx - nx * standoff, hy - ny * standoff, hz),
            hoop_pos = pos item\<rparr>))"

definition PlanRoute_on_enter :: "plan_route \<Rightarrow> uav \<Rightarrow> plan_route \<times> uav" where
  "PlanRoute_on_enter self u =
     (let hoops = plan_hoops self u in
      if hoops = [] then (self\<lparr>route := []\<rparr>, u\<lparr>planned_route := []\<rparr>)
      else
        let centers = plan_centers hoops;
            order = plan_loop (max_targets self) (plan_cur_pos u) centers [];
            planned = map (plan_entry (home_pose u) (pre_approach_dist self)) order
        in (self\<lparr>route := planned\<rparr>, u\<lparr>planned_route := planned\<rparr>))"

definition PlanRoute_on_update :: "plan_route \<Rightarrow> uav \<Rightarrow> real \<Rightarrow> command list" where
  "PlanRoute_on_update self u time_delta = []"

definition PlanRoute_check_status :: "plan_route \<Rightarrow> status" where
  "PlanRoute_check_status self = COMPLETE"

section \<open>GoToPreApproach\<close>

record go_to_pre_approach =
  cruise_speed_mps :: real
  waypoint_tol_m :: real
  target :: "point option"
  target_hoop :: "pydict option"

definition GoToPreApproach_on_enter :: "go_to_pre_approach \<Rightarrow> uav \<Rightarrow> go_to_pre_approach" where
  "GoToPreApproach_on_enter self u =
     (case planned_route u of
        [] \<Rightarrow> self\<lparr>target := None\<rparr>
      | item # _ \<Rightarrow> self\<lparr>target := Some (pre_approach item), target_hoop := Some (entry_hoop item)\<rparr>)"

text \<open>The bearing the setpoint is sent with, when the cached hoop carries one.\<close>

definition target_bearing :: "go_to_pre_approach \<Rightarrow> real option" where
  "target_bearing self = (case target_hoop self of None \<Rightarrow> None | Some h \<Rightarrow> key_bearing h)"

definition GoToPreApproach_on_update :: "go_to_pre_approach \<Rightarrow> uav \<Rightarrow> real \<Rightarrow> command list" where
  "GoToPreApproach_on_update self u time_delta =
     (case target self of
        None \<Rightarrow> []
      | Some t \<Rightarrow>
          (case target_bearing self of
             Some b \<Rightarrow>
               if available u publish_position_setpoint_yaw then [PositionSetpoint t (Some b)]
               else if available u publish_position_setpoint then [PositionSetpoint t None]
               else []
           | None \<Rightarrow>
               if available u publish_position_setpoint then [PositionSetpoint t None] else []))"

definition GoToPreApproach_check_status :: "go_to_pre_approach \<Rightarrow> uav \<Rightarrow> status" where
  "GoToPreApproach_check_status self u =
     (case target self of
        None \<Rightarrow> COMPLETE
      | Some t \<Rightarrow>
          (case local_position u of
             None \<Rightarrow> CONTINUE
           | Some cur \<Rightarrow> if math_dist cur t \<le> waypoint_tol_m self then COMPLETE else CONTINUE))"


section \<open>CommitTraverse\<close>

text \<open>The attributes \<^verbatim>\<open>self.start\<close> and \<^verbatim>\<open>self.end\<close> are the fields \<open>ct_start\<close> and \<open>ct_end\<close>.\<close>

record commit_traverse =
  traverse_dist :: real
  traverse_speed :: real
  ct_start :: "point option"
  ct_end :: "point option"

definition traverse_normal :: "pydict \<Rightarrow> point" where
  "traverse_normal h = (case key_bearing h of Some b \<Rightarrow> (cos b, sin b, 0) | None \<Rightarrow> (0, 1, 0))"

text \<open>Lines 22-37. On an empty route the method returns before it touches \<^verbatim>\<open>self\<close>.\<close>

definition CommitTraverse_on_enter :: "commit_traverse \<Rightarrow> uav \<Rightarrow> commit_traverse" where
  "CommitTraverse_on_enter self u =
     (case planned_route u of
        [] \<Rightarrow> self
      | item # _ \<Rightarrow>
          (case hoop_pos item of (hx, hy, hz) \<Rightarrow>
             (case traverse_normal (entry_hoop item) of (nx, ny, nz) \<Rightarrow>
                self\<lparr>ct_start := Some (hx - nx * 1, hy - ny * 1, hz),
                     ct_end := Some (hx + nx * traverse_dist self, hy + ny * traverse_dist self, hz)\<rparr>)))"

definition CommitTraverse_on_update :: "commit_traverse \<Rightarrow> uav \<Rightarrow> real \<Rightarrow> command list" where
  "CommitTraverse_on_update self u time_delta =
     (case ct_end self of
        None \<Rightarrow> []
      | Some e \<Rightarrow> if available u publish_position_setpoint then [PositionSetpoint e None] else [])"

text \<open>
  Lines 46-64. \<^verbatim>\<open>completed.append(route.pop(0))\<close> and the two attribute stores are the
  only writes to the shared context.
\<close>

definition CommitTraverse_check_status :: "commit_traverse \<Rightarrow> uav \<Rightarrow> status \<times> uav" where
  "CommitTraverse_check_status self u =
     (case ct_end self of
        None \<Rightarrow> (COMPLETE, u)
      | Some e \<Rightarrow>
          (case local_position u of
             None \<Rightarrow> (CONTINUE, u)
           | Some cur \<Rightarrow>
               if math_dist cur e \<le> 1 then
                 (case planned_route u of
                    [] \<Rightarrow> (COMPLETE, u)
                  | front # rest \<Rightarrow>
                      (COMPLETE, u\<lparr>hoops_traversed := hoops_traversed u @ [front],
                                    planned_route := rest\<rparr>))
               else (CONTINUE, u)))"


section \<open>CenterInImage\<close>

text \<open>Python's \<^verbatim>\<open>max(a, b)\<close> and \<^verbatim>\<open>min(a, b)\<close> return \<^verbatim>\<open>a\<close> unless \<^verbatim>\<open>b\<close> is strictly better.\<close>

definition py_max :: "real \<Rightarrow> real \<Rightarrow> real" where
  "py_max a b = (if a < b then b else a)"

definition py_min :: "real \<Rightarrow> real \<Rightarrow> real" where
  "py_min a b = (if b < a then b else a)"

definition clamp :: "real \<Rightarrow> real \<Rightarrow> real \<Rightarrow> real" where
  "clamp v lo hi = py_max lo (py_min hi v)"

record center_in_image =
  kx :: real
  ky :: real
  kz :: real
  kyaw :: real
  vmax_xy :: real
  vmax_z :: real
  vmax_yaw :: real
  hoop_center_tol_px :: real
  hoop_radius_target_px :: real
  timeout_s :: real
  start_time :: "real option"

text \<open>The constructor: \<^verbatim>\<open>vmax_yaw_dps\<close> is converted to radians once.\<close>

definition CenterInImage_init ::
  "real \<Rightarrow> real \<Rightarrow> real \<Rightarrow> real \<Rightarrow> real \<Rightarrow> real \<Rightarrow> real \<Rightarrow> real \<Rightarrow> real \<Rightarrow> real \<Rightarrow> center_in_image" where
  "CenterInImage_init kx0 ky0 kz0 kyaw0 vmax_xy0 vmax_z0 vmax_yaw_dps tol radius_target timeout =
     \<lparr>kx = kx0, ky = ky0, kz = kz0, kyaw = kyaw0, vmax_xy = vmax_xy0, vmax_z = vmax_z0,
      vmax_yaw = math_radians vmax_yaw_dps, hoop_center_tol_px = tol,
      hoop_radius_target_px = radius_target, timeout_s = timeout, start_time = None\<rparr>"

text \<open>\<open>clock\<close> is the node's clock reading in seconds, \<open>None\<close> when the node has no clock.\<close>

definition CenterInImage_on_enter :: "center_in_image \<Rightarrow> real option \<Rightarrow> center_in_image" where
  "CenterInImage_on_enter self clock = self\<lparr>start_time := clock\<rparr>"

text \<open>Lines 52-61: the velocities computed from the first detection.\<close>

definition control_law :: "center_in_image \<Rightarrow> pydict \<Rightarrow> real \<Rightarrow> real \<times> real \<times> real \<times> real" where
  "control_law self d cur_z =
     (let e_x = dict_get (key_ex d) 0;
          e_y = dict_get (key_ey d) 0;
          vx = clamp (- kx self * e_x) (- vmax_xy self) (vmax_xy self);
          vy = clamp (ky self * e_y) (- vmax_xy self) (vmax_xy self);
          z_target = cur_z;
          vz = clamp (kz self * (z_target - cur_z)) (- vmax_z self) (vmax_z self);
          yaw_rate = clamp (kyaw self * e_x) (- vmax_yaw self) (vmax_yaw self)
      in (vx, vy, vz, yaw_rate))"

definition uav_cur_z :: "uav \<Rightarrow> real" where
  "uav_cur_z u = (case local_position u of None \<Rightarrow> 0 | Some (x, y, z) \<Rightarrow> z)"

text \<open>
  \<open>dets\<close> is what \<^verbatim>\<open>get_latest_vision_detections\<close> returns on this call: the empty list
  when the accessor is missing, raises or returns nothing.
\<close>

definition CenterInImage_on_update :: "center_in_image \<Rightarrow> uav \<Rightarrow> pydict list \<Rightarrow> command list" where
  "CenterInImage_on_update self u dets =
     (case dets of
        [] \<Rightarrow> []
      | d # _ \<Rightarrow>
          (case control_law self d (uav_cur_z u) of (vx, vy, vz, yaw_rate) \<Rightarrow>
             if available u publish_velocity_setpoint then [VelocitySetpoint vx vy vz yaw_rate]
             else if available u set_velocity then [SetVelocity vx vy vz]
             else []))"

text \<open>Lines 71-93. \<open>now\<close> is the clock reading of this tick, read only on the timeout branch.\<close>

definition CenterInImage_check_status :: "center_in_image \<Rightarrow> pydict list \<Rightarrow> real \<Rightarrow> status" where
  "CenterInImage_check_status self dets now =
     (case dets of
        [] \<Rightarrow> CONTINUE
      | d # _ \<Rightarrow>
          (let e_x = \<bar>dict_get (key_ex d) 0\<bar>;
               e_y = \<bar>dict_get (key_ey d) 0\<bar>;
               rad = dict_get (key_radius d) (dict_get (key_r d) 0)
           in if e_x \<le> hoop_center_tol_px self \<and> e_y \<le> hoop_center_tol_px self
                 \<and> \<bar>rad - hoop_radius_target_px self\<bar> \<le> 0.15 * hoop_radius_target_px self
              then COMPLETE
              else
                (case start_time self of
                   Some t0 \<Rightarrow> if now - t0 > timeout_s self then COMPLETE else CONTINUE
                 | None \<Rightarrow> CONTINUE)))"


section \<open>LaunchAndScan\<close>

text \<open>
  \<^verbatim>\<open>self.home_pose\<close> is the field \<open>enter_home_pose\<close>, to keep it apart from the attribute
  \<^verbatim>\<open>uav.home_pose\<close>. \<^verbatim>\<open>self.vision_node\<close> is \<^verbatim>\<open>None\<close> throughout the source, so the
  detections come from the accessor of \<^verbatim>\<open>uav\<close>.
\<close>

record launch_and_scan =
  takeoff_alt_m :: real
  spin_max_deg :: real
  spin_rate_dps :: real
  min_hoops_to_stop :: int
  scan_step_deg :: real
  collected :: "pydict list"
  scanned_deg :: real
  last_time :: "real option"
  enter_home_pose :: "point option"

definition enter_commands :: "launch_and_scan \<Rightarrow> uav \<Rightarrow> command list" where
  "enter_commands self u =
     (if available u publish_offboard_control_heartbeat_signal then [OffboardHeartbeat] else [])
     @ (if available u arm then [Arm] else [])
     @ (if available u takeoff then [Takeoff (takeoff_alt_m self)]
        else if available u publish_position_setpoint
             then [PositionSetpoint (0, 0, - \<bar>takeoff_alt_m self\<bar>) None]
        else [])"

definition LaunchAndScan_on_enter ::
  "launch_and_scan \<Rightarrow> uav \<Rightarrow> real \<Rightarrow> launch_and_scan \<times> command list" where
  "LaunchAndScan_on_enter self u now =
     (self\<lparr>last_time := Some now, scanned_deg := 0, collected := [],
           enter_home_pose := local_position u\<rparr>,
      enter_commands self u)"

text \<open>Lines 109-112: a detection not yet collected (by value) is appended.\<close>

fun collect :: "pydict list \<Rightarrow> pydict list \<Rightarrow> pydict list" where
  "collect acc [] = acc"
| "collect acc (d # ds) = collect (if d \<in> set acc then acc else acc @ [d]) ds"

definition spin_commands :: "launch_and_scan \<Rightarrow> uav \<Rightarrow> command list" where
  "spin_commands self u =
     (if available u publish_velocity_setpoint
        then [VelocitySetpoint 0 0 0 (math_radians (spin_rate_dps self))]
      else if available u set_yaw_rate then [SetYawRate (math_radians (spin_rate_dps self))]
      else [])"

text \<open>\<^verbatim>\<open>self.last_time or now\<close>: a missing or zero time stamp is replaced by \<open>now\<close>.\<close>

definition last_time_or :: "real option \<Rightarrow> real \<Rightarrow> real" where
  "last_time_or t now = (case t of None \<Rightarrow> now | Some x \<Rightarrow> if x = 0 then now else x)"

definition LaunchAndScan_on_update ::
  "launch_and_scan \<Rightarrow> uav \<Rightarrow> pydict list \<Rightarrow> real \<Rightarrow> (launch_and_scan \<times> uav) \<times> command list" where
  "LaunchAndScan_on_update self u dets now =
     (let collected' = collect (collected self) dets;
          dt = now - last_time_or (last_time self) now
      in ((self\<lparr>collected := collected', last_time := Some now,
                 scanned_deg := scanned_deg self + \<bar>spin_rate_dps self\<bar> * dt\<rparr>,
           u\<lparr>hoops_discovered := map HDict collected'\<rparr>),
          spin_commands self u))"

text \<open>Lines 126-150.\<close>

definition LaunchAndScan_check_status :: "launch_and_scan \<Rightarrow> uav \<Rightarrow> status \<times> uav" where
  "LaunchAndScan_check_status self u =
     (if int (length (collected self)) \<ge> min_hoops_to_stop self then
        (COMPLETE,
         if home_pose u = None \<and> enter_home_pose self \<noteq> None
         then u\<lparr>home_pose := enter_home_pose self\<rparr> else u)
      else if scanned_deg self \<ge> spin_max_deg self then (COMPLETE, u)
      else (CONTINUE, u))"


section \<open>The selection as the specification words it\<close>

text \<open>
  The specification's wording of the planner, for comparison with \<open>plan_loop\<close>: the
  remaining hoops stay in the order in which they were encountered, the nearest one to the
  reference point is selected, the first-encountered one winning a tie (a scan that
  replaces its candidate only by a strictly nearer hoop), and the selected hoop is taken
  out of the remaining ones. The count is the number of targets still allowed.
\<close>

fun nearest_first :: "point \<Rightarrow> center \<Rightarrow> center list \<Rightarrow> center" where
  "nearest_first ref best [] = best"
| "nearest_first ref best (c # cs) =
     nearest_first ref (if math_dist ref (pos c) < math_dist ref (pos best) then c else best) cs"

fun spec_greedy_route :: "nat \<Rightarrow> point \<Rightarrow> center list \<Rightarrow> center list" where
  "spec_greedy_route 0 ref remaining = []"
| "spec_greedy_route (Suc n) ref [] = []"
| "spec_greedy_route (Suc n) ref (c # cs) =
     (let chosen = nearest_first ref c cs
      in chosen # spec_greedy_route n (pos chosen) (remove1 chosen (c # cs)))"

text \<open>The glossary's approach normal: a unit vector.\<close>

definition unit_vector :: "point \<Rightarrow> bool" where
  "unit_vector n = (case n of (x, y, z) \<Rightarrow> x\<^sup>2 + y\<^sup>2 + z\<^sup>2 = 1)"


section \<open>Concrete mission states\<close>

text \<open>The states the closed theorems below are evaluated at.\<close>

definition uav0 :: uav where
  "uav0 = \<lparr>local_position = Some (0, 0, 0), home_pose = None, hoops_discovered = [],
           planned_route = [], hoops_traversed = [], available = (\<lambda>p. True)\<rparr>"

definition bare_hoop :: "real \<Rightarrow> real \<Rightarrow> real \<Rightarrow> pydict" where
  "bare_hoop x y z = \<lparr>key_position = Some [x, y, z], key_bearing = None, key_ex = None,
                      key_ey = None, key_radius = None, key_r = None\<rparr>"

definition servo0 :: center_in_image where
  "servo0 = \<lparr>kx = 0.002, ky = 0.002, kz = 0.5, kyaw = 0.01, vmax_xy = 1, vmax_z = 0.5,
             vmax_yaw = 0.5, hoop_center_tol_px = 8, hoop_radius_target_px = 80,
             timeout_s = 12, start_time = None\<rparr>"

definition det_far :: pydict where
  "det_far = \<lparr>key_position = None, key_bearing = None, key_ex = Some 1000, key_ey = Some 2000,
              key_radius = Some 40, key_r = None\<rparr>"

definition scan0 :: launch_and_scan where
  "scan0 = \<lparr>takeoff_alt_m = 3, spin_max_deg = 360, spin_rate_dps = 45, min_hoops_to_stop = 3,
            scan_step_deg = 10, collected = [], scanned_deg = 0, last_time = None,
            enter_home_pose = None\<rparr>"

definition traverse0 :: commit_traverse where
  "traverse0 = \<lparr>traverse_dist = 4, traverse_speed = 2, ct_start = None, ct_end = None\<rparr>"

definition entry0 :: route_entry where
  "entry0 = \<lparr>entry_hoop = bare_hoop 0 5 0, pre_approach = (0, 3/2, 0), hoop_pos = (0, 5, 0)\<rparr>"

definition hoop_center :: "real \<Rightarrow> real \<Rightarrow> real \<Rightarrow> center" where
  "hoop_center x y z = \<lparr>hoop = bare_hoop x y z, pos = (x, y, z)\<rparr>"

definition planner0 :: plan_route where
  "planner0 = \<lparr>pre_approach_dist = 7 / 2, max_targets = 4, route = [], points = None\<rparr>"

text \<open>Three points of which the first two are equally far from the third.\<close>

definition tie_planner :: plan_route where
  "tie_planner = \<lparr>pre_approach_dist = 7 / 2, max_targets = 4, route = [],
                  points = Some [[3, 0, 0], [1, 2, 0], [1, 0, 0]]\<rparr>"

definition hoop_east :: pydict where
  "hoop_east = \<lparr>key_position = Some [3, 4, 1], key_bearing = Some 0, key_ex = None,
                key_ey = None, key_radius = None, key_r = None\<rparr>"

definition entry_east :: route_entry where
  "entry_east = \<lparr>entry_hoop = hoop_east, pre_approach = (- 1 / 2, 4, 1), hoop_pos = (3, 4, 1)\<rparr>"

definition entry_away :: route_entry where
  "entry_away = \<lparr>entry_hoop = bare_hoop 3 4 1, pre_approach = (9 / 10, 6 / 5, 1),
                 hoop_pos = (3, 4, 1)\<rparr>"

definition entry_above :: route_entry where
  "entry_above = \<lparr>entry_hoop = bare_hoop 0 0 2, pre_approach = (0, 0, 2), hoop_pos = (0, 0, 2)\<rparr>"


section \<open>CenterInImage: clamped commands and the timeout\<close>

lemma clamp_bounds: "0 \<le> m \<Longrightarrow> \<bar>clamp v (- m) m\<bar> \<le> m"
  by (auto simp: clamp_def py_max_def py_min_def)

text \<open>
  Claim C2. With non-negative velocity limits, the horizontal velocities and the yaw rate
  the control law computes from a detection are bounded by the limits, whatever the gains
  and the pixel errors are.
\<close>

theorem control_law_clamped:
  assumes "0 \<le> vmax_xy self" and "0 \<le> vmax_yaw self"
    and "control_law self d cur_z = (vx, vy, vz, yaw_rate)"
  shows "\<bar>vx\<bar> \<le> vmax_xy self \<and> \<bar>vy\<bar> \<le> vmax_xy self \<and> \<bar>yaw_rate\<bar> \<le> vmax_yaw self"
  using assms clamp_bounds by (auto simp: control_law_def Let_def)

lemma control_law_servo0: "control_law servo0 det_far 0 = (- 1, 1, 0, 1 / 2)"
  by (simp add: control_law_def servo0_def det_far_def dict_get_def clamp_def py_max_def
      py_min_def)

theorem control_law_clamped_witness:
  "(0 \<le> vmax_xy servo0 \<and> 0 \<le> vmax_yaw servo0
      \<and> control_law servo0 det_far 0 = (- 1, 1, 0, 1 / 2))
   \<and> (\<bar>- 1\<bar> \<le> vmax_xy servo0 \<and> \<bar>1\<bar> \<le> vmax_xy servo0 \<and> \<bar>1 / 2\<bar> \<le> vmax_yaw servo0)"
proof -
  have h1: "0 \<le> vmax_xy servo0" and h2: "0 \<le> vmax_yaw servo0"
    by (simp_all add: servo0_def)
  note h3 = control_law_servo0
  from control_law_clamped [OF h1 h2 h3] h1 h2 h3 show ?thesis
    by blast
qed

lemma on_update_clamped:
  assumes "0 \<le> vmax_xy self" and "0 \<le> vmax_yaw self"
    and "c \<in> set (CenterInImage_on_update self u dets)"
  shows "(\<exists>vx vy vz w. c = VelocitySetpoint vx vy vz w
            \<and> \<bar>vx\<bar> \<le> vmax_xy self \<and> \<bar>vy\<bar> \<le> vmax_xy self \<and> \<bar>w\<bar> \<le> vmax_yaw self)
       \<or> (\<exists>vx vy vz. c = SetVelocity vx vy vz \<and> \<bar>vx\<bar> \<le> vmax_xy self \<and> \<bar>vy\<bar> \<le> vmax_xy self)"
proof (cases dets)
  case Nil
  with assms(3) show ?thesis by (simp add: CenterInImage_on_update_def)
next
  case (Cons d ds)
  with assms(3) clamp_bounds [OF assms(1)] clamp_bounds [OF assms(2)] show ?thesis
    by (auto simp: CenterInImage_on_update_def control_law_def Let_def split: if_splits)
qed

text \<open>
  Claim C3, evaluated at a tick without a detection: the mode was entered at clock 0 with
  a timeout of 12 seconds, the clock reads 100 and the vision accessor returns nothing.
  \<^verbatim>\<open>check_status\<close> returns before it reaches the timeout test.
\<close>

theorem CenterInImage_timeout_without_detection:
  "timeout_s (CenterInImage_on_enter servo0 (Some 0)) < 100 - 0
   \<and> start_time (CenterInImage_on_enter servo0 (Some 0)) = Some 0
   \<and> CenterInImage_check_status (CenterInImage_on_enter servo0 (Some 0)) [] 100 = CONTINUE"
  by (simp add: CenterInImage_check_status_def CenterInImage_on_enter_def servo0_def)

lemma CenterInImage_no_detection_continue:
  "CenterInImage_check_status self [] now = CONTINUE"
  by (simp add: CenterInImage_check_status_def)

lemma CenterInImage_timeout_with_detection:
  "start_time self = Some t0 \<Longrightarrow> timeout_s self < now - t0 \<Longrightarrow>
   CenterInImage_check_status self (d # ds) now = COMPLETE"
  by (simp add: CenterInImage_check_status_def Let_def)


section \<open>LaunchAndScan: termination and the home pose\<close>

text \<open>
  Claim C7. \<^verbatim>\<open>check_status\<close> returns COMPLETE exactly when the number of collected
  detections has reached \<^verbatim>\<open>min_hoops_to_stop\<close> or the scanned angle has reached
  \<^verbatim>\<open>spin_max_deg\<close>, and CONTINUE otherwise.
\<close>

theorem LaunchAndScan_check_status_iff:
  "fst (LaunchAndScan_check_status self u) =
     (if min_hoops_to_stop self \<le> int (length (collected self))
         \<or> spin_max_deg self \<le> scanned_deg self
      then COMPLETE else CONTINUE)"
  by (simp add: LaunchAndScan_check_status_def)

text \<open>
  Claim C8, evaluated on a scan that ends by the sweep budget: the mode is entered at
  clock 100 over pose (0,0,0) with no home pose recorded, one update arrives 8 seconds
  later with no detection (45 degrees per second, so 360 degrees scanned). \<^verbatim>\<open>check_status\<close>
  completes, the pose captured at enter time is there, and the home pose of the shared
  context is still unset.
\<close>

theorem LaunchAndScan_sweep_exhausted_home_pose:
  "fst (LaunchAndScan_check_status
          (fst (fst (LaunchAndScan_on_update (fst (LaunchAndScan_on_enter scan0 uav0 100)) uav0 [] 108)))
          (snd (fst (LaunchAndScan_on_update (fst (LaunchAndScan_on_enter scan0 uav0 100)) uav0 [] 108))))
     = COMPLETE
   \<and> scanned_deg
        (fst (fst (LaunchAndScan_on_update (fst (LaunchAndScan_on_enter scan0 uav0 100)) uav0 [] 108)))
     = 360
   \<and> enter_home_pose
        (fst (fst (LaunchAndScan_on_update (fst (LaunchAndScan_on_enter scan0 uav0 100)) uav0 [] 108)))
     = Some (0, 0, 0)
   \<and> home_pose (snd (LaunchAndScan_check_status
          (fst (fst (LaunchAndScan_on_update (fst (LaunchAndScan_on_enter scan0 uav0 100)) uav0 [] 108)))
          (snd (fst (LaunchAndScan_on_update (fst (LaunchAndScan_on_enter scan0 uav0 100)) uav0 [] 108)))))
     = None"
  by (simp add: LaunchAndScan_check_status_def LaunchAndScan_on_update_def
      LaunchAndScan_on_enter_def scan0_def uav0_def last_time_or_def Let_def)

lemma LaunchAndScan_count_commits_home_pose:
  "min_hoops_to_stop self \<le> int (length (collected self)) \<Longrightarrow> home_pose u = None \<Longrightarrow>
   enter_home_pose self = Some p \<Longrightarrow>
   LaunchAndScan_check_status self u = (COMPLETE, u\<lparr>home_pose := Some p\<rparr>)"
  by (simp add: LaunchAndScan_check_status_def)

lemma LaunchAndScan_sweep_keeps_context:
  "\<not> min_hoops_to_stop self \<le> int (length (collected self)) \<Longrightarrow>
   spin_max_deg self \<le> scanned_deg self \<Longrightarrow>
   LaunchAndScan_check_status self u = (COMPLETE, u)"
  by (simp add: LaunchAndScan_check_status_def)


section \<open>CommitTraverse: the visited bookkeeping\<close>

lemma CommitTraverse_on_enter_sets_end:
  "planned_route u \<noteq> [] \<Longrightarrow> ct_end (CommitTraverse_on_enter self u) \<noteq> None"
  by (auto simp: CommitTraverse_on_enter_def split: list.splits prod.splits)

lemma traverse0_enter:
  "CommitTraverse_on_enter traverse0 (uav0\<lparr>planned_route := [entry0]\<rparr>)
     = traverse0\<lparr>ct_start := Some (0, 4, 0), ct_end := Some (0, 9, 0)\<rparr>"
  by (simp add: CommitTraverse_on_enter_def traverse0_def uav0_def entry0_def
      traverse_normal_def bare_hoop_def)

lemma traverse0_arrive:
  "CommitTraverse_check_status (traverse0\<lparr>ct_start := Some (0, 4, 0), ct_end := Some (0, 9, 0)\<rparr>)
     (uav0\<lparr>planned_route := [entry0], local_position := Some (0, 9, 0)\<rparr>)
   = (COMPLETE, uav0\<lparr>planned_route := [], local_position := Some (0, 9, 0),
                      hoops_traversed := [entry0]\<rparr>)"
  by (simp add: CommitTraverse_check_status_def traverse0_def uav0_def math_dist_def)

text \<open>
  Claim C5. In an activation entered with a non-empty route, a tick on which the route is
  \<open>front # rest\<close> either returns CONTINUE and leaves the shared context as it was, or
  returns COMPLETE with both halves of the move done: the route is \<open>rest\<close>, the traversed
  list has \<open>front\<close> appended as its last element, the lengths change by one, and the two
  lists together hold the same entries as before.
\<close>

theorem CommitTraverse_pop_append:
  assumes "planned_route u \<noteq> []"
    and "planned_route v = front # rest"
    and "CommitTraverse_check_status (CommitTraverse_on_enter self u) v = (st, v')"
  shows "(st = COMPLETE \<longrightarrow>
            planned_route v' = rest \<and> hoops_traversed v' = hoops_traversed v @ [front]
          \<and> length (planned_route v) = length (planned_route v') + 1
          \<and> length (hoops_traversed v') = length (hoops_traversed v) + 1
          \<and> mset (planned_route v') + mset (hoops_traversed v')
              = mset (planned_route v) + mset (hoops_traversed v))
       \<and> (st = CONTINUE \<longrightarrow> v' = v)"
proof -
  obtain e where e: "ct_end (CommitTraverse_on_enter self u) = Some e"
    using CommitTraverse_on_enter_sets_end [OF assms(1)] by blast
  show ?thesis
    using assms(2,3) e
    by (auto simp: CommitTraverse_check_status_def split: option.splits if_splits)
qed

lemma traverse0_far:
  "CommitTraverse_check_status (traverse0\<lparr>ct_start := Some (0, 4, 0), ct_end := Some (0, 9, 0)\<rparr>)
     (uav0\<lparr>planned_route := [entry0]\<rparr>)
   = (CONTINUE, uav0\<lparr>planned_route := [entry0]\<rparr>)"
  by (simp add: CommitTraverse_check_status_def traverse0_def uav0_def math_dist_def)

theorem CommitTraverse_pop_append_witness:
  "(planned_route (uav0\<lparr>planned_route := [entry0]\<rparr>) \<noteq> []
      \<and> planned_route (uav0\<lparr>planned_route := [entry0], local_position := Some (0, 9, 0)\<rparr>)
          = entry0 # []
      \<and> CommitTraverse_check_status
            (CommitTraverse_on_enter traverse0 (uav0\<lparr>planned_route := [entry0]\<rparr>))
            (uav0\<lparr>planned_route := [entry0], local_position := Some (0, 9, 0)\<rparr>)
          = (COMPLETE, uav0\<lparr>planned_route := [], local_position := Some (0, 9, 0),
                             hoops_traversed := [entry0]\<rparr>))
   \<and> (planned_route (uav0\<lparr>planned_route := [], local_position := Some (0, 9, 0),
                           hoops_traversed := [entry0]\<rparr>) = []
      \<and> hoops_traversed (uav0\<lparr>planned_route := [], local_position := Some (0, 9, 0),
                               hoops_traversed := [entry0]\<rparr>)
          = hoops_traversed (uav0\<lparr>planned_route := [entry0], local_position := Some (0, 9, 0)\<rparr>)
            @ [entry0])
   \<and> CommitTraverse_check_status
        (CommitTraverse_on_enter traverse0 (uav0\<lparr>planned_route := [entry0]\<rparr>))
        (uav0\<lparr>planned_route := [entry0]\<rparr>)
      = (CONTINUE, uav0\<lparr>planned_route := [entry0]\<rparr>)"
proof -
  have h1: "planned_route (uav0\<lparr>planned_route := [entry0]\<rparr>) \<noteq> []"
    by simp
  have h2: "planned_route (uav0\<lparr>planned_route := [entry0], local_position := Some (0, 9, 0)\<rparr>)
      = entry0 # []"
    by simp
  have h3: "CommitTraverse_check_status
      (CommitTraverse_on_enter traverse0 (uav0\<lparr>planned_route := [entry0]\<rparr>))
      (uav0\<lparr>planned_route := [entry0], local_position := Some (0, 9, 0)\<rparr>)
    = (COMPLETE, uav0\<lparr>planned_route := [], local_position := Some (0, 9, 0),
                      hoops_traversed := [entry0]\<rparr>)"
    by (simp only: traverse0_enter traverse0_arrive)
  have h4: "planned_route (uav0\<lparr>planned_route := [entry0]\<rparr>) = entry0 # []"
    by simp
  obtain st v' where h5: "CommitTraverse_check_status
      (CommitTraverse_on_enter traverse0 (uav0\<lparr>planned_route := [entry0]\<rparr>))
      (uav0\<lparr>planned_route := [entry0]\<rparr>) = (st, v')"
    by (cases "CommitTraverse_check_status
      (CommitTraverse_on_enter traverse0 (uav0\<lparr>planned_route := [entry0]\<rparr>))
      (uav0\<lparr>planned_route := [entry0]\<rparr>)") blast
  have st: "st = CONTINUE"
    using h5 by (simp only: traverse0_enter traverse0_far) simp
  from CommitTraverse_pop_append [OF h1 h4 h5] st h5
  have c: "CommitTraverse_check_status
      (CommitTraverse_on_enter traverse0 (uav0\<lparr>planned_route := [entry0]\<rparr>))
      (uav0\<lparr>planned_route := [entry0]\<rparr>) = (CONTINUE, uav0\<lparr>planned_route := [entry0]\<rparr>)"
    by blast
  from CommitTraverse_pop_append [OF h1 h2 h3] h1 h2 h3 c show ?thesis
    by blast
qed

text \<open>
  Claim C10. A tick on which \<^verbatim>\<open>check_status\<close> returns CONTINUE leaves the whole shared
  context, and so the planned route and the traversed list, as it was. In particular a
  tick without a pose, and a tick farther than the tolerance from the end point, return
  CONTINUE with the context unchanged.
\<close>

theorem CommitTraverse_continue_frame:
  "(CommitTraverse_check_status self u = (CONTINUE, u') \<longrightarrow>
        u' = u \<and> planned_route u' = planned_route u \<and> hoops_traversed u' = hoops_traversed u)
   \<and> (ct_end self = Some e \<and> local_position u = None \<longrightarrow>
        CommitTraverse_check_status self u = (CONTINUE, u))
   \<and> (ct_end self = Some e \<and> local_position u = Some cur \<and> 1 < math_dist cur e \<longrightarrow>
        CommitTraverse_check_status self u = (CONTINUE, u))"
  by (auto simp: CommitTraverse_check_status_def split: option.splits list.splits if_splits)

theorem CommitTraverse_continue_frame_witness:
  "CommitTraverse_check_status (traverse0\<lparr>ct_start := Some (0, 4, 0), ct_end := Some (0, 9, 0)\<rparr>)
      (uav0\<lparr>planned_route := [entry0]\<rparr>)
     = (CONTINUE, uav0\<lparr>planned_route := [entry0]\<rparr>)
   \<and> planned_route (uav0\<lparr>planned_route := [entry0]\<rparr>) = planned_route (uav0\<lparr>planned_route := [entry0]\<rparr>)
   \<and> (ct_end (traverse0\<lparr>ct_start := Some (0, 4, 0), ct_end := Some (0, 9, 0)\<rparr>) = Some (0, 9, 0)
        \<and> local_position (uav0\<lparr>local_position := None\<rparr>) = None)
   \<and> CommitTraverse_check_status (traverse0\<lparr>ct_start := Some (0, 4, 0), ct_end := Some (0, 9, 0)\<rparr>)
        (uav0\<lparr>local_position := None\<rparr>)
     = (CONTINUE, uav0\<lparr>local_position := None\<rparr>)
   \<and> (local_position uav0 = Some (0, 0, 0) \<and> 1 < math_dist (0, 0, 0) (0, 9, 0))
   \<and> CommitTraverse_check_status (traverse0\<lparr>ct_start := Some (0, 4, 0), ct_end := Some (0, 9, 0)\<rparr>)
        uav0
     = (CONTINUE, uav0)"
proof -
  let ?s = "traverse0\<lparr>ct_start := Some (0, 4, 0), ct_end := Some (0, 9, 0)\<rparr>"
  have e: "ct_end ?s = Some (0, 9, 0)"
    by simp
  have n: "local_position (uav0\<lparr>local_position := None\<rparr>) = None"
    by simp
  have f: "local_position uav0 = Some (0, 0, 0)" and d: "1 < math_dist (0, 0, 0) (0, 9, 0)"
    by (simp_all add: uav0_def math_dist_def)
  note t = CommitTraverse_continue_frame
  from t [of ?s "uav0\<lparr>planned_route := [entry0]\<rparr>" "uav0\<lparr>planned_route := [entry0]\<rparr>"]
    traverse0_far
  have c1: "planned_route (uav0\<lparr>planned_route := [entry0]\<rparr>)
      = planned_route (uav0\<lparr>planned_route := [entry0]\<rparr>)"
    by blast
  from t [of ?s "uav0\<lparr>local_position := None\<rparr>" _ "(0, 9, 0)"] e n
  have c2: "CommitTraverse_check_status ?s (uav0\<lparr>local_position := None\<rparr>)
      = (CONTINUE, uav0\<lparr>local_position := None\<rparr>)"
    by blast
  from t [of ?s uav0 _ "(0, 9, 0)" "(0, 0, 0)"] e f d
  have c3: "CommitTraverse_check_status ?s uav0 = (CONTINUE, uav0)"
    by blast
  from traverse0_far c1 e n c2 f d c3 show ?thesis
    by blast
qed


section \<open>Activations with nothing to do\<close>

lemma GoToPreApproach_empty_route:
  "planned_route u = [] \<Longrightarrow>
   GoToPreApproach_check_status (GoToPreApproach_on_enter self u) v = COMPLETE
   \<and> GoToPreApproach_on_update (GoToPreApproach_on_enter self u) v time_delta = []"
  by (simp add: GoToPreApproach_check_status_def GoToPreApproach_on_enter_def
      GoToPreApproach_on_update_def)

lemma PlanRoute_empty_hoops:
  "plan_hoops self u = [] \<Longrightarrow>
   PlanRoute_check_status (fst (PlanRoute_on_enter self u)) = COMPLETE
   \<and> PlanRoute_on_update (fst (PlanRoute_on_enter self u)) v time_delta = []
   \<and> planned_route (snd (PlanRoute_on_enter self u)) = []"
  by (simp add: PlanRoute_check_status_def PlanRoute_on_update_def PlanRoute_on_enter_def)

lemma CommitTraverse_empty_route_first_activation:
  "planned_route u = [] \<Longrightarrow> ct_end self = None \<Longrightarrow>
   CommitTraverse_check_status (CommitTraverse_on_enter self u) v = (COMPLETE, v)
   \<and> CommitTraverse_on_update (CommitTraverse_on_enter self u) v time_delta = []"
  by (simp add: CommitTraverse_check_status_def CommitTraverse_on_enter_def
      CommitTraverse_on_update_def)

text \<open>
  Claim C9, evaluated on a second activation of one CommitTraverse instance. The first
  activation was entered on a route holding the hoop at (0,5,0), which set the end point
  (0,9,0); the hoop was traversed and popped, so the route is now empty and the vehicle is
  back at (0,0,0). \<^verbatim>\<open>on_enter\<close> on the empty route returns without clearing the end point:
  \<^verbatim>\<open>on_update\<close> commands a position setpoint at the old end point and \<^verbatim>\<open>check_status\<close>
  returns CONTINUE.
\<close>

theorem CommitTraverse_reentered_on_empty_route:
  "planned_route (uav0\<lparr>hoops_traversed := [entry0]\<rparr>) = []
   \<and> CommitTraverse_on_update
        (CommitTraverse_on_enter
           (CommitTraverse_on_enter traverse0 (uav0\<lparr>planned_route := [entry0]\<rparr>))
           (uav0\<lparr>hoops_traversed := [entry0]\<rparr>))
        (uav0\<lparr>hoops_traversed := [entry0]\<rparr>) (1 / 10)
     = [PositionSetpoint (0, 9, 0) None]
   \<and> fst (CommitTraverse_check_status
        (CommitTraverse_on_enter
           (CommitTraverse_on_enter traverse0 (uav0\<lparr>planned_route := [entry0]\<rparr>))
           (uav0\<lparr>hoops_traversed := [entry0]\<rparr>))
        (uav0\<lparr>hoops_traversed := [entry0]\<rparr>))
     = CONTINUE"
  by (simp add: traverse0_enter)
    (simp add: CommitTraverse_on_enter_def CommitTraverse_on_update_def
      CommitTraverse_check_status_def uav0_def math_dist_def)


section \<open>PlanRoute: the selection loop\<close>

lemma plan_loop_Nil: "plan_loop maxt cur [] order = order"
  by (simp add: plan_loop.simps)

lemma plan_loop_full: "maxt \<le> int (length order) \<Longrightarrow> plan_loop maxt cur remaining order = order"
  by (simp add: plan_loop.simps)

lemma plan_loop_step:
  assumes "int (length order) < maxt"
    and "sort_key (\<lambda>c. math_dist cur (pos c)) remaining = chosen # rest"
  shows "plan_loop maxt cur remaining order = plan_loop maxt (pos chosen) rest (order @ [chosen])"
proof -
  from assms(2) have "remaining \<noteq> []" by auto
  with assms show ?thesis
    by (subst plan_loop.simps) simp
qed

lemma sort_key_first_min:
  fixes f :: "'a \<Rightarrow> real"
  assumes "\<forall>x\<in>set pre. f c < f x" and "\<forall>x\<in>set post. f c \<le> f x"
  shows "sort_key f (pre @ c # post) = c # sort_key f (pre @ post)"
  using assms
proof (induction pre)
  case Nil
  then show ?case by (simp add: insort_is_Cons)
next
  case (Cons p pre)
  then show ?case by simp
qed

lemma first_min_split:
  fixes f :: "'a \<Rightarrow> real"
  assumes "xs \<noteq> []"
  shows "\<exists>pre c post. xs = pre @ c # post \<and> (\<forall>x\<in>set pre. f c < f x) \<and> (\<forall>x\<in>set post. f c \<le> f x)"
  using assms
proof (induction xs)
  case Nil
  then show ?case by simp
next
  case (Cons a ys)
  show ?case
  proof (cases "ys = []")
    case True
    then have "a # ys = [] @ a # []" by simp
    then show ?thesis by (metis empty_iff empty_set)
  next
    case False
    with Cons.IH obtain pre c post where s: "ys = pre @ c # post"
      and lt: "\<forall>x\<in>set pre. f c < f x" and le: "\<forall>x\<in>set post. f c \<le> f x"
      by blast
    show ?thesis
    proof (cases "f a \<le> f c")
      case True
      have "\<forall>x\<in>set ys. f a \<le> f x"
        using True lt le s by fastforce
      moreover have "a # ys = [] @ a # ys" by simp
      ultimately show ?thesis by (metis empty_iff empty_set)
    next
      case False
      then have "\<forall>x\<in>set (a # pre). f c < f x" using lt by simp
      moreover have "a # ys = (a # pre) @ c # post" using s by simp
      ultimately show ?thesis using le by blast
    qed
  qed
qed

lemma entry_hoop_plan_entry [simp]: "entry_hoop (plan_entry home standoff item) = hoop item"
  by (simp add: plan_entry_def split: prod.splits)

lemma hoop_pos_plan_entry [simp]: "hoop_pos (plan_entry home standoff item) = pos item"
  by (simp add: plan_entry_def split: prod.splits)

lemma planned_route_on_enter:
  "planned_route (snd (PlanRoute_on_enter self u))
     = map (plan_entry (home_pose u) (pre_approach_dist self))
         (plan_loop (max_targets self) (plan_cur_pos u) (plan_centers (plan_hoops self u)) [])"
  by (simp add: PlanRoute_on_enter_def Let_def plan_centers_def plan_loop_Nil)

text \<open>
  Claim C1, as the code has it. The route is the image of the selection loop, started at
  the current vehicle position with every well-formed hoop remaining, in input order, and
  nothing selected. The loop stops when no hoop remains or \<open>maxt\<close> hoops are selected.
  Otherwise it appends a hoop of minimum distance to the reference point and makes its
  position the new reference point; among the hoops at minimum distance it takes the one
  that stands first in the remaining list as that list is now (every hoop before it is
  strictly farther), and it leaves the other hoops stably sorted by their distance to the
  old reference point. So the remaining list is in input order at the first selection
  only.
\<close>

theorem PlanRoute_greedy_selection:
  "planned_route (snd (PlanRoute_on_enter self u))
     = map (plan_entry (home_pose u) (pre_approach_dist self))
         (plan_loop (max_targets self) (plan_cur_pos u) (plan_centers (plan_hoops self u)) [])
   \<and> (remaining = [] \<or> maxt \<le> int (length order) \<longrightarrow> plan_loop maxt cur remaining order = order)
   \<and> (remaining \<noteq> [] \<and> int (length order) < maxt \<longrightarrow>
        (\<exists>pre chosen post.
            remaining = pre @ chosen # post
          \<and> (\<forall>c\<in>set pre. math_dist cur (pos chosen) < math_dist cur (pos c))
          \<and> (\<forall>c\<in>set post. math_dist cur (pos chosen) \<le> math_dist cur (pos c))
          \<and> plan_loop maxt cur remaining order
              = plan_loop maxt (pos chosen)
                  (sort_key (\<lambda>c. math_dist cur (pos c)) (pre @ post)) (order @ [chosen])))"
proof (intro conjI impI)
  show "planned_route (snd (PlanRoute_on_enter self u))
     = map (plan_entry (home_pose u) (pre_approach_dist self))
         (plan_loop (max_targets self) (plan_cur_pos u) (plan_centers (plan_hoops self u)) [])"
    by (rule planned_route_on_enter)
next
  assume "remaining = [] \<or> maxt \<le> int (length order)"
  then show "plan_loop maxt cur remaining order = order"
    using plan_loop_Nil plan_loop_full by blast
next
  assume a: "remaining \<noteq> [] \<and> int (length order) < maxt"
  let ?f = "\<lambda>c. math_dist cur (pos c)"
  from a first_min_split [of remaining ?f] obtain pre chosen post
    where s: "remaining = pre @ chosen # post"
      and lt: "\<forall>c\<in>set pre. ?f chosen < ?f c" and le: "\<forall>c\<in>set post. ?f chosen \<le> ?f c"
    by blast
  have "sort_key ?f remaining = chosen # sort_key ?f (pre @ post)"
    unfolding s using lt le by (rule sort_key_first_min)
  with a have "plan_loop maxt cur remaining order
      = plan_loop maxt (pos chosen) (sort_key ?f (pre @ post)) (order @ [chosen])"
    by (simp add: plan_loop_step)
  with s lt le show "\<exists>pre chosen post.
            remaining = pre @ chosen # post
          \<and> (\<forall>c\<in>set pre. math_dist cur (pos chosen) < math_dist cur (pos c))
          \<and> (\<forall>c\<in>set post. math_dist cur (pos chosen) \<le> math_dist cur (pos c))
          \<and> plan_loop maxt cur remaining order
              = plan_loop maxt (pos chosen)
                  (sort_key (\<lambda>c. math_dist cur (pos c)) (pre @ post)) (order @ [chosen])"
    by blast
qed

text \<open>
  The theorem at the second selection of the run below (the hoop at (1,0,0) is selected,
  the hoops at (1,2,0) and (3,0,0) remain in this order), and at its end, when nothing
  remains.
\<close>

theorem PlanRoute_greedy_selection_witness:
  "([hoop_center 1 2 0, hoop_center 3 0 0] \<noteq> [] \<and> int (length [hoop_center 1 0 0]) < 4)
   \<and> (\<exists>pre chosen post.
          [hoop_center 1 2 0, hoop_center 3 0 0] = pre @ chosen # post
        \<and> (\<forall>c\<in>set pre. math_dist (1, 0, 0) (pos chosen) < math_dist (1, 0, 0) (pos c))
        \<and> (\<forall>c\<in>set post. math_dist (1, 0, 0) (pos chosen) \<le> math_dist (1, 0, 0) (pos c))
        \<and> plan_loop 4 (1, 0, 0) [hoop_center 1 2 0, hoop_center 3 0 0] [hoop_center 1 0 0]
            = plan_loop 4 (pos chosen)
                (sort_key (\<lambda>c. math_dist (1, 0, 0) (pos c)) (pre @ post))
                ([hoop_center 1 0 0] @ [chosen]))
   \<and> plan_loop 4 (3, 0, 0) [] [hoop_center 1 0 0, hoop_center 1 2 0, hoop_center 3 0 0]
       = [hoop_center 1 0 0, hoop_center 1 2 0, hoop_center 3 0 0]"
proof -
  have h: "[hoop_center 1 2 0, hoop_center 3 0 0] \<noteq> [] \<and> int (length [hoop_center 1 0 0]) < 4"
    by simp
  have e: "([]::center list) = []
      \<or> 4 \<le> int (length [hoop_center 1 0 0, hoop_center 1 2 0, hoop_center 3 0 0])"
    by simp
  from PlanRoute_greedy_selection
    [of tie_planner uav0 "[hoop_center 1 2 0, hoop_center 3 0 0]" 4 "[hoop_center 1 0 0]" "(1, 0, 0)"]
    PlanRoute_greedy_selection
    [of tie_planner uav0 "[]" 4 "[hoop_center 1 0 0, hoop_center 1 2 0, hoop_center 3 0 0]" "(3, 0, 0)"]
    h e
  show ?thesis
    by blast
qed

lemma tie_centers:
  "plan_centers (plan_hoops tie_planner uav0)
     = [hoop_center 3 0 0, hoop_center 1 2 0, hoop_center 1 0 0]"
  by (simp add: plan_centers_def plan_hoops_def tie_planner_def hoop_center_def bare_hoop_def)

lemma sqrt_5_less_3: "\<not> 3 \<le> sqrt 5"
proof -
  have "sqrt 5 < 3"
    by (rule real_less_lsqrt) simp_all
  then show ?thesis by simp
qed

lemma tie_order:
  "plan_loop 4 (0, 0, 0) [hoop_center 3 0 0, hoop_center 1 2 0, hoop_center 1 0 0] []
     = [hoop_center 1 0 0, hoop_center 1 2 0, hoop_center 3 0 0]"
  by (simp add: plan_loop.simps hoop_center_def math_dist_def sqrt_5_less_3)

lemma tie_spec_order:
  "spec_greedy_route 4 (0, 0, 0) [hoop_center 3 0 0, hoop_center 1 2 0, hoop_center 1 0 0]
     = [hoop_center 1 0 0, hoop_center 3 0 0, hoop_center 1 2 0]"
  by (simp add: eval_nat_numeral hoop_center_def math_dist_def bare_hoop_def Let_def
      sqrt_5_less_3)

text \<open>
  Claim C1 as stated fails on the points (3,0,0), (1,2,0), (1,0,0), planned from (0,0,0).
  The hoop at (1,0,0) is selected first. From there the hoops at (3,0,0) and (1,2,0) are
  equally far, and (3,0,0) was encountered first. The first sort, by distance to (0,0,0),
  has put (1,2,0) before (3,0,0), and the second, stable sort keeps that order: the route
  goes to (1,2,0), where the first-encountered rule goes to (3,0,0).
\<close>

theorem PlanRoute_tie_not_first_encountered:
  "map hoop_pos (planned_route (snd (PlanRoute_on_enter tie_planner uav0)))
     = [(1, 0, 0), (1, 2, 0), (3, 0, 0)]
   \<and> map pos (spec_greedy_route 4 (plan_cur_pos uav0) (plan_centers (plan_hoops tie_planner uav0)))
     = [(1, 0, 0), (3, 0, 0), (1, 2, 0)]
   \<and> math_dist (1, 0, 0) (3, 0, 0) = math_dist (1, 0, 0) (1, 2, 0)"
proof -
  have m: "max_targets tie_planner = 4" and c: "plan_cur_pos uav0 = (0, 0, 0)"
    by (simp_all add: tie_planner_def plan_cur_pos_def uav0_def)
  show ?thesis
    by (simp add: planned_route_on_enter tie_centers m c tie_order tie_spec_order comp_def)
      (simp add: hoop_center_def math_dist_def)
qed


section \<open>PlanRoute: the size of the route\<close>

lemma plan_loop_length:
  "int (length (plan_loop maxt cur remaining order)) \<le> max (int (length order)) maxt"
proof (induction maxt cur remaining order rule: plan_loop.induct)
  case (1 maxt cur_pos remaining order)
  show ?case
  proof (cases "remaining \<noteq> [] \<and> int (length order) < maxt")
    case False
    then show ?thesis
      by (cases "remaining = []") (simp_all add: plan_loop_Nil plan_loop_full)
  next
    case True
    then obtain chosen rest where
      sk: "sort_key (\<lambda>c. math_dist cur_pos (pos c)) remaining = chosen # rest"
      by (metis length_sort list.exhaust list.size(3) length_0_conv)
    from "1.IH" [OF True sk]
    have "int (length (plan_loop maxt (pos chosen) rest (order @ [chosen])))
        \<le> max (int (length (order @ [chosen]))) maxt" .
    moreover have "plan_loop maxt cur_pos remaining order
        = plan_loop maxt (pos chosen) rest (order @ [chosen])"
      using True sk by (simp add: plan_loop_step)
    ultimately show ?thesis using True by simp
  qed
qed

lemma plan_loop_mset:
  "mset (plan_loop maxt cur remaining order) \<subseteq># mset order + mset remaining"
proof (induction maxt cur remaining order rule: plan_loop.induct)
  case (1 maxt cur_pos remaining order)
  show ?case
  proof (cases "remaining \<noteq> [] \<and> int (length order) < maxt")
    case False
    then show ?thesis
      by (cases "remaining = []") (simp_all add: plan_loop_Nil plan_loop_full)
  next
    case True
    then obtain chosen rest where
      sk: "sort_key (\<lambda>c. math_dist cur_pos (pos c)) remaining = chosen # rest"
      by (metis length_sort list.exhaust list.size(3) length_0_conv)
    from "1.IH" [OF True sk]
    have "mset (plan_loop maxt (pos chosen) rest (order @ [chosen]))
        \<subseteq># mset (order @ [chosen]) + mset rest" .
    moreover have "plan_loop maxt cur_pos remaining order
        = plan_loop maxt (pos chosen) rest (order @ [chosen])"
      using True sk by (simp add: plan_loop_step)
    moreover have "mset remaining = mset (chosen # rest)"
      by (metis sk mset_sort)
    ultimately show ?thesis by simp
  qed
qed

lemma distinct_mset_subseteq:
  assumes "mset ys \<subseteq># mset xs" and "distinct xs"
  shows "distinct ys"
proof -
  have "count (mset ys) a \<le> 1" for a
  proof -
    have "count (mset ys) a \<le> count (mset xs) a"
      using assms(1) by (rule mset_subset_eq_count)
    also have "\<dots> \<le> 1"
      using assms(2) by (simp add: distinct_count_atmost_1)
    finally show ?thesis .
  qed
  then show ?thesis
    by (metis count_mset_0_iff distinct_count_atmost_1 le_antisym le0
        count_greater_zero_iff set_mset_mset less_one linorder_not_le)
qed

lemma nth_map_Suc: "map ((!) (x # xs)) (map Suc js) = map ((!) xs) js"
  by (induction js) simp_all

text \<open>A list whose elements are among those of \<open>xs\<close>, counted, is read off \<open>xs\<close> at different places.\<close>

lemma sub_mset_indices:
  "mset ys \<subseteq># mset xs \<Longrightarrow>
   \<exists>js. distinct js \<and> (\<forall>j\<in>set js. j < length xs) \<and> ys = map ((!) xs) js"
proof (induction xs arbitrary: ys)
  case Nil
  then have "ys = []" by simp
  then show ?case by simp
next
  case (Cons x xs)
  show ?case
  proof (cases "x \<in> set ys")
    case False
    then have "mset ys \<subseteq># mset xs"
      using Cons.prems
      by (metis diff_single_trivial mset.simps(2) subset_eq_diff_conv add_mset_add_single
          set_mset_mset)
    with Cons.IH obtain js where js: "distinct js" "\<forall>j\<in>set js. j < length xs" "ys = map ((!) xs) js"
      by blast
    have "distinct (map Suc js)"
      using js(1) by (simp add: distinct_map)
    moreover have "\<forall>j\<in>set (map Suc js). j < length (x # xs)"
      using js(2) by auto
    moreover have "ys = map ((!) (x # xs)) (map Suc js)"
      using js(3) by (simp only: nth_map_Suc)
    ultimately show ?thesis by blast
  next
    case True
    then obtain ys1 ys2 where s: "ys = ys1 @ x # ys2"
      by (meson split_list)
    then have "mset (ys1 @ ys2) \<subseteq># mset xs"
      using Cons.prems by simp
    with Cons.IH obtain js where js: "distinct js" "\<forall>j\<in>set js. j < length xs"
      "ys1 @ ys2 = map ((!) xs) js"
      by blast
    let ?n = "length ys1"
    let ?ks = "map Suc (take ?n js) @ 0 # map Suc (drop ?n js)"
    have l: "length js = length ys1 + length ys2"
      using js(3) by (metis length_append length_map)
    have t: "ys1 = map ((!) xs) (take ?n js)" and d: "ys2 = map ((!) xs) (drop ?n js)"
      using js(3) l by (metis append_eq_conv_conj take_map, metis append_eq_conv_conj drop_map)
    have "distinct ?ks"
    proof -
      have "distinct (take ?n js) \<and> distinct (drop ?n js)
          \<and> set (take ?n js) \<inter> set (drop ?n js) = {}"
        using js(1) by (metis append_take_drop_id distinct_append)
      then show ?thesis by (auto simp: distinct_map)
    qed
    moreover have "\<forall>j\<in>set ?ks. j < length (x # xs)"
      using js(2) by (auto dest: in_set_takeD in_set_dropD)
    moreover have "ys = map ((!) (x # xs)) ?ks"
      using s t d by (simp add: nth_map_Suc del: map_map)
    ultimately show ?thesis by blast
  qed
qed

lemma PlanRoute_nonpositive_max_targets:
  "max_targets self \<le> 0 \<Longrightarrow> planned_route (snd (PlanRoute_on_enter self u)) = []"
  by (simp add: planned_route_on_enter plan_loop_full)

text \<open>
  Claim C6. For a target count \<^verbatim>\<open>max_targets\<close> that is not negative, the route holds at most
  \<^verbatim>\<open>max_targets\<close> entries. Its hoop records are those found at pairwise different places
  of the list of well-formed input hoops, so no hoop record of the input is in the route
  twice; and when the input hoop records all differ, the hoop records of the route all
  differ.
\<close>

theorem PlanRoute_route_bounded_no_repeat:
  assumes "0 \<le> max_targets self"
  shows "int (length (planned_route (snd (PlanRoute_on_enter self u)))) \<le> max_targets self
   \<and> (\<exists>js. distinct js
          \<and> (\<forall>j\<in>set js. j < length (plan_centers (plan_hoops self u)))
          \<and> map entry_hoop (planned_route (snd (PlanRoute_on_enter self u)))
              = map (\<lambda>j. hoop (plan_centers (plan_hoops self u) ! j)) js)
   \<and> (distinct (map hoop (plan_centers (plan_hoops self u))) \<longrightarrow>
        distinct (map entry_hoop (planned_route (snd (PlanRoute_on_enter self u)))))"
proof -
  let ?centers = "plan_centers (plan_hoops self u)"
  let ?order = "plan_loop (max_targets self) (plan_cur_pos u) ?centers []"
  have r: "map entry_hoop (planned_route (snd (PlanRoute_on_enter self u))) = map hoop ?order"
    by (simp add: planned_route_on_enter comp_def)
  have l: "int (length (planned_route (snd (PlanRoute_on_enter self u)))) \<le> max_targets self"
    using plan_loop_length [of "max_targets self" "plan_cur_pos u" ?centers "[]"] assms
    by (simp add: planned_route_on_enter)
  have sub: "mset ?order \<subseteq># mset ?centers"
    using plan_loop_mset [of "max_targets self" "plan_cur_pos u" ?centers "[]"]
    by simp
  from sub_mset_indices [OF sub] obtain js where js: "distinct js"
    "\<forall>j\<in>set js. j < length ?centers" "?order = map ((!) ?centers) js"
    by blast
  have "map hoop ?order = map (\<lambda>j. hoop (?centers ! j)) js"
    by (subst js(3)) (simp add: comp_def)
  with r js(1,2) have i: "\<exists>js. distinct js
          \<and> (\<forall>j\<in>set js. j < length ?centers)
          \<and> map entry_hoop (planned_route (snd (PlanRoute_on_enter self u)))
              = map (\<lambda>j. hoop (?centers ! j)) js"
    by auto
  from sub have "image_mset hoop (mset ?order) \<subseteq># image_mset hoop (mset ?centers)"
    by (rule image_mset_subseteq_mono)
  then have m: "mset (map entry_hoop (planned_route (snd (PlanRoute_on_enter self u))))
       \<subseteq># mset (map hoop ?centers)"
    by (simp add: r)
  from l i distinct_mset_subseteq [OF m] show ?thesis
    by blast
qed

theorem PlanRoute_route_bounded_no_repeat_witness:
  "(0 \<le> max_targets tie_planner
      \<and> distinct (map hoop (plan_centers (plan_hoops tie_planner uav0))))
   \<and> int (length (planned_route (snd (PlanRoute_on_enter tie_planner uav0))))
       \<le> max_targets tie_planner
   \<and> distinct (map entry_hoop (planned_route (snd (PlanRoute_on_enter tie_planner uav0))))"
proof -
  have h0: "0 \<le> max_targets tie_planner"
    by (simp add: tie_planner_def)
  have h: "distinct (map hoop (plan_centers (plan_hoops tie_planner uav0)))"
    by (simp add: tie_centers hoop_center_def bare_hoop_def)
  from PlanRoute_route_bounded_no_repeat [OF h0, of uav0] h0 h show ?thesis
    by blast
qed

section \<open>PlanRoute: the pre-approach points\<close>

lemma plan_entry_fields:
  assumes "pos item = (hx, hy, hz)"
    and "approach_normal home (hoop item) (pos item) = (nx, ny, nz)"
  shows "plan_entry home standoff item
     = \<lparr>entry_hoop = hoop item, pre_approach = (hx - nx * standoff, hy - ny * standoff, hz),
        hoop_pos = pos item\<rparr>"
  using assms by (simp add: plan_entry_def)

lemma hypot_zero_iff: "math_hypot x y = 0 \<longleftrightarrow> x = 0 \<and> y = 0"
  by (simp add: math_hypot_def)

lemma unit_normal:
  assumes "math_hypot x y \<noteq> 0"
  shows "(x / math_hypot x y)\<^sup>2 + (y / math_hypot x y)\<^sup>2 = 1"
proof -
  have "(math_hypot x y)\<^sup>2 = x\<^sup>2 + y\<^sup>2"
    by (simp add: math_hypot_def)
  moreover have "(x / math_hypot x y)\<^sup>2 + (y / math_hypot x y)\<^sup>2
      = (x\<^sup>2 + y\<^sup>2) / (math_hypot x y)\<^sup>2"
    by (simp add: power_divide add_divide_distrib)
  ultimately show ?thesis using assms by (simp add: hypot_zero_iff)
qed

lemma normal_divisor_nonzero: "normal_divisor vx vy \<noteq> 0"
  by (simp add: normal_divisor_def)

text \<open>
  Claim C4, as the code has it. For every entry of the planned route, with \<open>(hx, hy, hz)\<close>
  the hoop position, \<open>(sx, sy, sz)\<close> the home pose (the origin when none is recorded) and
  \<open>(nx, ny, nz)\<close> the approach normal: the pre-approach point is the hoop position minus
  the normal times \<^verbatim>\<open>pre_approach_dist\<close> in x and y, with z unchanged. A hoop with bearing
  \<open>b\<close> has the normal \<open>(cos b, sin b, 0)\<close>. For a hoop without bearing the normal is the
  plane vector from the home pose to the hoop divided by \<open>normal_divisor\<close>, which is never
  zero. When the hoop is not above the home pose the divisor is the length of that vector,
  and the normal is a unit vector. When the hoop is straight above or below the home pose
  the divisor is 1: the normal is the zero vector and the pre-approach point is the hoop
  position itself.
\<close>

theorem PlanRoute_pre_approach_point:
  assumes "e \<in> set (planned_route (snd (PlanRoute_on_enter self u)))"
    and "hoop_pos e = (hx, hy, hz)"
    and "dict_get (home_pose u) (0, 0, 0) = (sx, sy, sz)"
    and "approach_normal (home_pose u) (entry_hoop e) (hoop_pos e) = (nx, ny, nz)"
  shows "pre_approach e
           = (hx - nx * pre_approach_dist self, hy - ny * pre_approach_dist self, hz)
       \<and> (\<forall>b. key_bearing (entry_hoop e) = Some b \<longrightarrow> (nx, ny, nz) = (cos b, sin b, 0))
       \<and> normal_divisor (hx - sx) (hy - sy) \<noteq> 0
       \<and> (key_bearing (entry_hoop e) = None \<longrightarrow>
            (nx, ny, nz) = ((hx - sx) / normal_divisor (hx - sx) (hy - sy),
                            (hy - sy) / normal_divisor (hx - sx) (hy - sy), 0))
       \<and> (key_bearing (entry_hoop e) = None \<and> (hx, hy) \<noteq> (sx, sy) \<longrightarrow>
            normal_divisor (hx - sx) (hy - sy) = math_hypot (hx - sx) (hy - sy)
          \<and> (nx, ny, nz) = ((hx - sx) / math_hypot (hx - sx) (hy - sy),
                            (hy - sy) / math_hypot (hx - sx) (hy - sy), 0)
          \<and> unit_vector (nx, ny, nz))
       \<and> (key_bearing (entry_hoop e) = None \<and> (hx, hy) = (sx, sy) \<longrightarrow>
            normal_divisor (hx - sx) (hy - sy) = 1
          \<and> (nx, ny, nz) = (0, 0, 0) \<and> \<not> unit_vector (nx, ny, nz)
          \<and> pre_approach e = hoop_pos e)"
proof -
  from assms(1) obtain item where e: "e = plan_entry (home_pose u) (pre_approach_dist self) item"
    by (auto simp: planned_route_on_enter)
  have p: "pos item = (hx, hy, hz)"
    and n: "approach_normal (home_pose u) (hoop item) (pos item) = (nx, ny, nz)"
    using assms(2,4) e by simp_all
  have pre: "pre_approach e
      = (hx - nx * pre_approach_dist self, hy - ny * pre_approach_dist self, hz)"
    by (simp add: e plan_entry_fields [OF p n])
  have b: "(nx, ny, nz) = (cos b, sin b, 0)" if "key_bearing (entry_hoop e) = Some b" for b
    using that n p by (simp add: e approach_normal_def)
  have q: "(nx, ny, nz) = ((hx - sx) / normal_divisor (hx - sx) (hy - sy),
                          (hy - sy) / normal_divisor (hx - sx) (hy - sy), 0)"
    if "key_bearing (entry_hoop e) = None"
    using that n p assms(3) by (simp add: e approach_normal_def Let_def)
  have far: "normal_divisor (hx - sx) (hy - sy) = math_hypot (hx - sx) (hy - sy)
          \<and> (nx, ny, nz) = ((hx - sx) / math_hypot (hx - sx) (hy - sy),
                            (hy - sy) / math_hypot (hx - sx) (hy - sy), 0)
          \<and> unit_vector (nx, ny, nz)"
    if h: "key_bearing (entry_hoop e) = None \<and> (hx, hy) \<noteq> (sx, sy)"
  proof -
    from h have nz: "math_hypot (hx - sx) (hy - sy) \<noteq> 0"
      by (auto simp: hypot_zero_iff)
    then have d: "normal_divisor (hx - sx) (hy - sy) = math_hypot (hx - sx) (hy - sy)"
      by (simp add: normal_divisor_def)
    with q h have v: "(nx, ny, nz) = ((hx - sx) / math_hypot (hx - sx) (hy - sy),
                            (hy - sy) / math_hypot (hx - sx) (hy - sy), 0)"
      by simp
    with unit_normal [OF nz] d show ?thesis by (simp add: unit_vector_def)
  qed
  have at: "normal_divisor (hx - sx) (hy - sy) = 1
          \<and> (nx, ny, nz) = (0, 0, 0) \<and> \<not> unit_vector (nx, ny, nz)
          \<and> pre_approach e = hoop_pos e"
    if h: "key_bearing (entry_hoop e) = None \<and> (hx, hy) = (sx, sy)"
  proof -
    from h have d: "normal_divisor (hx - sx) (hy - sy) = 1"
      by (simp add: normal_divisor_def hypot_zero_iff)
    with q h have z: "(nx, ny, nz) = (0, 0, 0)"
      by simp
    with pre assms(2) d show ?thesis by (simp add: unit_vector_def)
  qed
  from pre b q far at normal_divisor_nonzero [of "hx - sx" "hy - sy"] show ?thesis by blast
qed

lemma single_hoop_route:
  assumes "key_position h = Some [x, y, z]"
  shows "planned_route (snd (PlanRoute_on_enter planner0 (uav0\<lparr>hoops_discovered := [HDict h]\<rparr>)))
     = [plan_entry None (7 / 2) \<lparr>hoop = h, pos = (x, y, z)\<rparr>]"
  using assms
  by (simp add: planned_route_on_enter plan_centers_def plan_hoops_def planner0_def uav0_def
      plan_loop.simps)

lemma route_east:
  "planned_route (snd (PlanRoute_on_enter planner0 (uav0\<lparr>hoops_discovered := [HDict hoop_east]\<rparr>)))
     = [entry_east]"
proof -
  have "key_position hoop_east = Some [3, 4, 1]"
    by (simp add: hoop_east_def)
  from single_hoop_route [OF this] show ?thesis
    by (simp add: plan_entry_def approach_normal_def entry_east_def hoop_east_def)
qed

lemma route_away:
  "planned_route (snd (PlanRoute_on_enter planner0 (uav0\<lparr>hoops_discovered := [HDict (bare_hoop 3 4 1)]\<rparr>)))
     = [entry_away]"
proof -
  have "key_position (bare_hoop 3 4 1) = Some [3, 4, 1]"
    by (simp add: bare_hoop_def)
  from single_hoop_route [OF this] show ?thesis
    by (simp add: plan_entry_def approach_normal_def normal_divisor_def entry_away_def
        bare_hoop_def dict_get_def math_hypot_def)
qed

lemma route_above:
  "planned_route (snd (PlanRoute_on_enter planner0 (uav0\<lparr>hoops_discovered := [HDict (bare_hoop 0 0 2)]\<rparr>)))
     = [entry_above]"
proof -
  have "key_position (bare_hoop 0 0 2) = Some [0, 0, 2]"
    by (simp add: bare_hoop_def)
  from single_hoop_route [OF this] show ?thesis
    by (simp add: plan_entry_def approach_normal_def normal_divisor_def entry_above_def
        bare_hoop_def dict_get_def math_hypot_def)
qed

theorem PlanRoute_pre_approach_point_witness:
  "(entry_east \<in> set (planned_route (snd (PlanRoute_on_enter planner0
        (uav0\<lparr>hoops_discovered := [HDict hoop_east]\<rparr>))))
      \<and> key_bearing (entry_hoop entry_east) = Some 0
      \<and> pre_approach entry_east = (3 - cos 0 * pre_approach_dist planner0,
                                    4 - sin 0 * pre_approach_dist planner0, 1))
   \<and> (entry_away \<in> set (planned_route (snd (PlanRoute_on_enter planner0
        (uav0\<lparr>hoops_discovered := [HDict (bare_hoop 3 4 1)]\<rparr>))))
      \<and> key_bearing (entry_hoop entry_away) = None
      \<and> pre_approach entry_away = (3 - 3 / 5 * pre_approach_dist planner0,
                                    4 - 4 / 5 * pre_approach_dist planner0, 1))
   \<and> (entry_above \<in> set (planned_route (snd (PlanRoute_on_enter planner0
        (uav0\<lparr>hoops_discovered := [HDict (bare_hoop 0 0 2)]\<rparr>))))
      \<and> key_bearing (entry_hoop entry_above) = None
      \<and> pre_approach entry_above = hoop_pos entry_above)"
proof -
  let ?u = "\<lambda>h. uav0\<lparr>hoops_discovered := [HDict h]\<rparr>"
  have home: "dict_get (home_pose (?u h)) (0, 0, 0) = (0, 0, 0)" for h
    by (simp add: uav0_def dict_get_def)
  have hn: "home_pose (?u h) = None" for h
    by (simp add: uav0_def)
  have e1: "entry_east \<in> set (planned_route (snd (PlanRoute_on_enter planner0 (?u hoop_east))))"
    by (simp add: route_east)
  have p1: "hoop_pos entry_east = (3, 4, 1)" and b1: "key_bearing (entry_hoop entry_east) = Some 0"
    by (simp_all add: entry_east_def hoop_east_def)
  have n1: "approach_normal (home_pose (?u hoop_east)) (entry_hoop entry_east) (hoop_pos entry_east)
      = (cos 0, sin 0, 0)"
    by (simp add: approach_normal_def entry_east_def hoop_east_def)
  from PlanRoute_pre_approach_point [OF e1 p1 home n1]
  have c1: "pre_approach entry_east
      = (3 - cos 0 * pre_approach_dist planner0, 4 - sin 0 * pre_approach_dist planner0, 1)"
    by blast
  have e2: "entry_away \<in> set (planned_route (snd (PlanRoute_on_enter planner0 (?u (bare_hoop 3 4 1)))))"
    by (simp add: route_away)
  have p2: "hoop_pos entry_away = (3, 4, 1)" and b2: "key_bearing (entry_hoop entry_away) = None"
    by (simp_all add: entry_away_def bare_hoop_def)
  have n2: "approach_normal (home_pose (?u (bare_hoop 3 4 1))) (entry_hoop entry_away)
      (hoop_pos entry_away) = (3 / 5, 4 / 5, 0)"
    by (simp add: approach_normal_def normal_divisor_def entry_away_def bare_hoop_def hn
        dict_get_def math_hypot_def)
  from PlanRoute_pre_approach_point [OF e2 p2 home n2]
  have c2: "pre_approach entry_away
      = (3 - 3 / 5 * pre_approach_dist planner0, 4 - 4 / 5 * pre_approach_dist planner0, 1)"
    by blast
  have e3: "entry_above \<in> set (planned_route (snd (PlanRoute_on_enter planner0 (?u (bare_hoop 0 0 2)))))"
    by (simp add: route_above)
  have p3: "hoop_pos entry_above = (0, 0, 2)" and b3: "key_bearing (entry_hoop entry_above) = None"
    by (simp_all add: entry_above_def bare_hoop_def)
  have n3: "approach_normal (home_pose (?u (bare_hoop 0 0 2))) (entry_hoop entry_above)
      (hoop_pos entry_above) = (0, 0, 0)"
    by (simp add: approach_normal_def normal_divisor_def entry_above_def bare_hoop_def hn
        dict_get_def math_hypot_def)
  from PlanRoute_pre_approach_point [OF e3 p3 home n3] b3
  have c3: "pre_approach entry_above = hoop_pos entry_above"
    by blast
  from e1 b1 c1 e2 b2 c2 e3 b3 c3 show ?thesis
    by blast
qed

text \<open>
  Claim C4 as stated fails for the hoop at (0,0,2) without bearing, planned with no home
  pose recorded, so straight above the origin. The vector from the home pose to the hoop
  has length zero in the plane, and what takes the place of the normal is the zero vector,
  which is no unit vector and no direction: with a standoff of 3.5 the pre-approach point
  is the hoop position itself.
\<close>

theorem PlanRoute_zero_length_normal:
  "planned_route (snd (PlanRoute_on_enter planner0
       (uav0\<lparr>hoops_discovered := [HDict (bare_hoop 0 0 2)]\<rparr>))) = [entry_above]
   \<and> key_bearing (entry_hoop entry_above) = None
   \<and> approach_normal (home_pose (uav0\<lparr>hoops_discovered := [HDict (bare_hoop 0 0 2)]\<rparr>))
        (entry_hoop entry_above) (hoop_pos entry_above) = (0, 0, 0)
   \<and> \<not> unit_vector
        (approach_normal (home_pose (uav0\<lparr>hoops_discovered := [HDict (bare_hoop 0 0 2)]\<rparr>))
           (entry_hoop entry_above) (hoop_pos entry_above))
   \<and> pre_approach_dist planner0 = 7 / 2
   \<and> pre_approach entry_above = hoop_pos entry_above"
proof -
  have n: "approach_normal (home_pose (uav0\<lparr>hoops_discovered := [HDict (bare_hoop 0 0 2)]\<rparr>))
      (entry_hoop entry_above) (hoop_pos entry_above) = (0, 0, 0)"
    by (simp add: approach_normal_def normal_divisor_def entry_above_def bare_hoop_def uav0_def
        dict_get_def math_hypot_def)
  have "\<not> unit_vector (0, 0, 0)"
    by (simp add: unit_vector_def)
  with n route_above show ?thesis
    by (simp add: entry_above_def bare_hoop_def planner0_def)
qed

end
